theory Spec2Isabelle
  imports Main "HOL-Library.AList" "HOL-Library.Sublist"
begin

section \<open>Python values used by the script\<close>

text \<open>
  The exceptions the script can meet, as values.  \<open>NotFound\<close> is the
  \<^verbatim>\<open>ValueError(f"Job '{job_name}' not found")\<close> of \<^verbatim>\<open>get_job_id\<close>;
  \<open>BadInt\<close> is the \<^verbatim>\<open>ValueError\<close> that \<^verbatim>\<open>int(next_page)\<close> raises on a
  header that is not a decimal integer; \<open>RequestFailed\<close> stands for whatever
  \<^verbatim>\<open>requests.get\<close>, \<^verbatim>\<open>raise_for_status\<close> or \<^verbatim>\<open>response.json\<close> raise.
  \<open>ParseError\<close> is \<^verbatim>\<open>xml.etree.ElementTree.ParseError\<close>; every other
  constructor is an exception that is an \<^verbatim>\<open>Exception\<close> but not a \<^verbatim>\<open>ParseError\<close>.
\<close>

datatype error =
    RequestFailed
  | NotFound string
  | BadInt string
  | FileNotFoundError
  | FileExistsError
  | IsADirectoryError
  | NotADirectoryError
  | BadZipFile
  | JSONDecodeError
  | ParseError
  | MarkupError

subsection \<open>\<^verbatim>\<open>int(s)\<close> on a header value\<close>

text \<open>
  \<^verbatim>\<open>int\<close> of a string, base 10, on ASCII text: surrounding whitespace is
  stripped, one sign is allowed, and the digits may be separated by single
  underscores.  Anything else raises \<^verbatim>\<open>ValueError\<close> (\<open>None\<close> here).
\<close>

definition is_space :: "char \<Rightarrow> bool" where
  "is_space c = (c \<in> set [CHR '' '', CHR 0x09, CHR 0x0A, CHR 0x0B, CHR 0x0C, CHR 0x0D,
                           CHR 0x1C, CHR 0x1D, CHR 0x1E, CHR 0x1F])"

definition is_digit :: "char \<Rightarrow> bool" where
  "is_digit c = (48 \<le> (of_char c :: nat) \<and> (of_char c :: nat) \<le> 57)"

definition digit_val :: "char \<Rightarrow> nat" where
  "digit_val c = of_char c - 48"

definition strip :: "string \<Rightarrow> string" where
  "strip s = rev (dropWhile is_space (rev (dropWhile is_space s)))"

text \<open>
  \<open>digits_val acc prev_digit s\<close>: the value of a digit string read left to
  right; an underscore is accepted only between two digits.
\<close>

fun digits_val :: "nat \<Rightarrow> bool \<Rightarrow> string \<Rightarrow> nat option" where
  "digits_val acc prev [] = (if prev then Some acc else None)"
| "digits_val acc prev (c # cs) =
     (if is_digit c then digits_val (10 * acc + digit_val c) True cs
      else if c = CHR ''_'' \<and> prev \<and> cs \<noteq> [] \<and> is_digit (hd cs) then digits_val acc False cs
      else None)"

definition py_int :: "string \<Rightarrow> int option" where
  "py_int s =
     (case strip s of
        [] \<Rightarrow> None
      | c # cs \<Rightarrow>
          if c = CHR ''-'' then map_option (\<lambda>n. - int n) (digits_val 0 False cs)
          else if c = CHR ''+'' then map_option int (digits_val 0 False cs)
          else map_option int (digits_val 0 False (c # cs)))"

subsection \<open>\<^verbatim>\<open>str(n)\<close> of an integer\<close>

definition digit_char :: "nat \<Rightarrow> char" where
  "digit_char d = char_of (48 + d)"

function str_nat :: "nat \<Rightarrow> string" where
  "str_nat n = (if n < 10 then [digit_char n] else str_nat (n div 10) @ [digit_char (n mod 10)])"
  by pat_completeness auto
termination
  by (relation "measure id") auto

definition str_int :: "int \<Rightarrow> string" where
  "str_int i = (if i < 0 then CHR ''-'' # str_nat (nat (- i)) else str_nat (nat i))"

section \<open>The CI server\<close>

text \<open>
  One job of a listing (\<^verbatim>\<open>job['name']\<close>, \<^verbatim>\<open>job['id']\<close>) and one answered
  page request: the decoded body and the \<^verbatim>\<open>X-Next-Page\<close> header, \<open>None\<close>
  when the header is missing.
\<close>

record job =
  job_name :: string
  job_id :: int

record jobs_page =
  jobs :: "job list"
  x_next_page :: "string option"

text \<open>
  The server as the script sees it.  \<open>list_jobs project pipeline page\<close> answers
  \<^verbatim>\<open>GET {base}/projects/{project}/pipelines/{pipeline}/jobs?per_page=100&page={page}\<close>
  and \<open>get_artifacts project job\<close> answers
  \<^verbatim>\<open>GET {base}/projects/{project}/jobs/{job}/artifacts\<close>; \<open>Inl\<close> is a request
  that raises (network fault, error status, undecodable body).  The base URL and
  the token only select the server, so they are not separate arguments.
\<close>

type_synonym path = "string list"

datatype style = Title | Monospace

datatype flowable = Paragraph style string

datatype content =
    Text string
  | Pdf "flowable list"
  | Zip "(path \<times> content) list"

datatype node = File content | Dir "(string \<times> node) list"

record server =
  list_jobs :: "string \<Rightarrow> string \<Rightarrow> int \<Rightarrow> error + jobs_page"
  get_artifacts :: "string \<Rightarrow> int \<Rightarrow> error + content"

datatype request = JobsPage string string int | Artifacts string int

datatype message =
    Downloaded string path
  | JobFailed string error
  | XmlParsingError
  | XmlConvertFailed error
  | NoPdfFiles
  | ZippedTo path

text \<open>
  Everything the script can change: the file system (the tree below the working
  directory), what it printed, and the requests it sent, oldest first.
\<close>

record world =
  fs :: node
  stdout :: "message list"
  requests :: "request list"

section \<open>\<^verbatim>\<open>PipelineArtifactFetcher.get_job_id\<close>\<close>

text \<open>
  The \<^verbatim>\<open>while True\<close> loop of \<^verbatim>\<open>get_job_id\<close>, with \<open>page\<close> as its variable.
  It need not end (a server may hand out cursors for ever), so the result is an
  option: \<open>None\<close> is the loop that never returns.
\<close>

definition find_job :: "string \<Rightarrow> job list \<Rightarrow> job option" where
  "find_job nm js = find (\<lambda>j. job_name j = nm) js"

partial_function (option) get_job_id_loop ::
  "server \<Rightarrow> string \<Rightarrow> string \<Rightarrow> string \<Rightarrow> int \<Rightarrow> world \<Rightarrow> ((error + int) \<times> world) option"
where
  "get_job_id_loop srv project_id pipeline_id nm page w =
     (let w1 = w\<lparr>requests := requests w @ [JobsPage project_id pipeline_id page]\<rparr> in
      case list_jobs srv project_id pipeline_id page of
        Inl e \<Rightarrow> Some (Inl e, w1)
      | Inr response \<Rightarrow>
          (case find_job nm (jobs response) of
             Some j \<Rightarrow> Some (Inr (job_id j), w1)
           | None \<Rightarrow>
               (case x_next_page response of
                  None \<Rightarrow> Some (Inl (NotFound nm), w1)
                | Some next_page \<Rightarrow>
                    if next_page = [] then Some (Inl (NotFound nm), w1)
                    else (case py_int next_page of
                            None \<Rightarrow> Some (Inl (BadInt next_page), w1)
                          | Some p \<Rightarrow> get_job_id_loop srv project_id pipeline_id nm p w1))))"

declare get_job_id_loop.simps [code]

definition get_job_id ::
  "server \<Rightarrow> string \<Rightarrow> string \<Rightarrow> string \<Rightarrow> world \<Rightarrow> ((error + int) \<times> world) option"
where
  "get_job_id srv project_id pipeline_id nm w = get_job_id_loop srv project_id pipeline_id nm 1 w"

section \<open>The file system\<close>

text \<open>
  A path is the list of its components below the working directory;
  \<^verbatim>\<open>os.path.join(d, name)\<close> is \<open>d @ [name]\<close>, for a name without a separator.
  A directory lists its entries in the order \<^verbatim>\<open>os.listdir\<close> and \<^verbatim>\<open>os.walk\<close>
  report them; a new entry goes last.
\<close>

fun lookup :: "path \<Rightarrow> node \<Rightarrow> node option" where
  "lookup [] n = Some n"
| "lookup (x # xs) (File c) = None"
| "lookup (x # xs) (Dir es) = (case map_of es x of None \<Rightarrow> None | Some n \<Rightarrow> lookup xs n)"

definition exists_path :: "path \<Rightarrow> node \<Rightarrow> bool" where
  "exists_path p f = (lookup p f \<noteq> None)"

text \<open>\<^verbatim>\<open>open(p, 'r')\<close> and reading the file.\<close>

definition read_file :: "path \<Rightarrow> node \<Rightarrow> error + content" where
  "read_file p f =
     (case lookup p f of
        None \<Rightarrow> Inl FileNotFoundError
      | Some (Dir es) \<Rightarrow> Inl IsADirectoryError
      | Some (File c) \<Rightarrow> Inr c)"

text \<open>\<^verbatim>\<open>open(p, 'wb')\<close> and writing \<open>c\<close>: the parent must be a directory, the
  path itself must not be one.\<close>

fun write_file :: "path \<Rightarrow> content \<Rightarrow> node \<Rightarrow> error + node" where
  "write_file [] c n = Inl IsADirectoryError"
| "write_file (x # xs) c (File c') = Inl NotADirectoryError"
| "write_file [x] c (Dir es) =
     (case map_of es x of
        Some (Dir es') \<Rightarrow> Inl IsADirectoryError
      | _ \<Rightarrow> Inr (Dir (AList.update x (File c) es)))"
| "write_file (x # y # ys) c (Dir es) =
     (case map_of es x of
        None \<Rightarrow> Inl FileNotFoundError
      | Some n \<Rightarrow>
          (case write_file (y # ys) c n of
             Inl e \<Rightarrow> Inl e
           | Inr n' \<Rightarrow> Inr (Dir (AList.update x n' es))))"

text \<open>\<^verbatim>\<open>os.makedirs(p)\<close>: creates the missing directories of \<open>p\<close>; the last
  component must not exist.\<close>

fun chain :: "path \<Rightarrow> node" where
  "chain [] = Dir []"
| "chain (x # xs) = Dir [(x, chain xs)]"

fun makedirs :: "path \<Rightarrow> node \<Rightarrow> error + node" where
  "makedirs [] n = Inl FileExistsError"
| "makedirs (x # xs) (File c) = Inl NotADirectoryError"
| "makedirs (x # xs) (Dir es) =
     (case map_of es x of
        None \<Rightarrow> Inr (Dir (AList.update x (chain xs) es))
      | Some n \<Rightarrow>
          if xs = [] then Inl FileExistsError
          else (case makedirs xs n of
                  Inl e \<Rightarrow> Inl e
                | Inr n' \<Rightarrow> Inr (Dir (AList.update x n' es))))"

text \<open>Taking the entry at \<open>p\<close> out of its directory, with all below it.\<close>

fun remove_entry :: "path \<Rightarrow> node \<Rightarrow> node" where
  "remove_entry [] n = n"
| "remove_entry (x # xs) (File c) = File c"
| "remove_entry [x] (Dir es) = Dir (AList.delete x es)"
| "remove_entry (x # y # ys) (Dir es) =
     (case map_of es x of
        None \<Rightarrow> Dir es
      | Some n \<Rightarrow> Dir (AList.update x (remove_entry (y # ys) n) es))"


text \<open>\<^verbatim>\<open>os.remove(p)\<close> removes a file only.\<close>

definition os_remove :: "path \<Rightarrow> node \<Rightarrow> error + node" where
  "os_remove p f =
     (case lookup p f of
        None \<Rightarrow> Inl FileNotFoundError
      | Some (Dir es) \<Rightarrow> Inl IsADirectoryError
      | Some (File c) \<Rightarrow> Inr (remove_entry p f))"

definition listdir :: "path \<Rightarrow> node \<Rightarrow> error + string list" where
  "listdir p f =
     (case lookup p f of
        None \<Rightarrow> Inl FileNotFoundError
      | Some (File c) \<Rightarrow> Inl NotADirectoryError
      | Some (Dir es) \<Rightarrow> Inr (map fst es))"

text \<open>
  \<^verbatim>\<open>os.walk(top)\<close>, top down: the files of a directory, then each of its
  subdirectories in turn.  \<open>walk_files top n\<close> is the list of
  \<^verbatim>\<open>os.path.join(root, file)\<close> in the order the two nested loops of \<^verbatim>\<open>zip_pdfs\<close>
  meet them.  A top that is missing or not a directory yields nothing.
\<close>

fun is_file :: "node \<Rightarrow> bool" where
  "is_file (File c) = True"
| "is_file (Dir es) = False"

fun walk_files :: "path \<Rightarrow> node \<Rightarrow> path list" where
  "walk_files root (File c) = []"
| "walk_files root (Dir es) =
     map (\<lambda>e. root @ [fst e]) (filter (\<lambda>e. is_file (snd e)) es) @
     concat (map (\<lambda>e. walk_files (root @ [fst e]) (snd e)) (filter (\<lambda>e. \<not> is_file (snd e)) es))"

definition os_walk_files :: "path \<Rightarrow> node \<Rightarrow> path list" where
  "os_walk_files d f = (case lookup d f of None \<Rightarrow> [] | Some n \<Rightarrow> walk_files d n)"

text \<open>A directory holds each name once.\<close>

fun wf_node :: "node \<Rightarrow> bool" where
  "wf_node (File c) = True"
| "wf_node (Dir es) = (distinct (map fst es) \<and> list_all (\<lambda>e. wf_node (snd e)) es)"

section \<open>Strings\<close>

definition endswith :: "string \<Rightarrow> string \<Rightarrow> bool" where
  "endswith s suf = (length suf \<le> length s \<and> drop (length s - length suf) s = suf)"

text \<open>\<^verbatim>\<open>str.lower\<close> on ASCII letters.\<close>

definition lower_char :: "char \<Rightarrow> char" where
  "lower_char c =
     (if 65 \<le> (of_char c :: nat) \<and> (of_char c :: nat) \<le> 90 then char_of ((of_char c :: nat) + 32) else c)"

definition lower :: "string \<Rightarrow> string" where
  "lower s = map lower_char s"

text \<open>
  \<^verbatim>\<open>os.path.splitext\<close> on a file name: the extension starts at the last dot,
  unless only dots stand before it.
\<close>

definition splitext :: "string \<Rightarrow> string \<times> string" where
  "splitext p =
     (let ext = takeWhile (\<lambda>c. c \<noteq> CHR ''.'') (rev p) in
      if length ext = length p then (p, [])
      else
        let stem = take (length p - length ext - 1) p in
        if list_all (\<lambda>c. c = CHR ''.'') stem then (p, [])
        else (stem, drop (length stem) p))"

text \<open>\<^verbatim>\<open>s.split('\n')\<close>.\<close>

fun split_lines :: "string \<Rightarrow> string list" where
  "split_lines [] = [[]]"
| "split_lines (c # cs) =
     (if c = CHR 0x0A then [] # split_lines cs
      else (case split_lines cs of [] \<Rightarrow> [[c]] | l # ls \<Rightarrow> (c # l) # ls))"

text \<open>\<^verbatim>\<open>html.escape(s)\<close>, with \<^verbatim>\<open>quote=True\<close>.\<close>

definition html_escape_char :: "char \<Rightarrow> string" where
  "html_escape_char c =
     (if c = CHR ''&'' then ''&amp;''
      else if c = CHR ''<'' then ''&lt;''
      else if c = CHR ''>'' then ''&gt;''
      else if c = CHR 0x22 then ''&quot;''
      else if c = CHR 0x27 then ''&#x27;''
      else [c])"

definition html_escape :: "string \<Rightarrow> string" where
  "html_escape s = concat (map html_escape_char s)"

section \<open>JSON\<close>

text \<open>
  The values \<^verbatim>\<open>json.load\<close> builds.  An object is the \<^verbatim>\<open>dict\<close> in insertion
  order.  A float is held as its \<^verbatim>\<open>repr\<close>, which is what \<^verbatim>\<open>json.dumps\<close>
  prints for it.  The characters of a string are code points below 256.
\<close>

datatype json =
    JNull
  | JBool bool
  | JInt int
  | JFloat string
  | JStr string
  | JArr "json list"
  | JObj "(string \<times> json) list"

subsection \<open>\<^verbatim>\<open>json.dumps(v, indent=2)\<close>\<close>

definition hex_digit :: "nat \<Rightarrow> char" where
  "hex_digit d = (if d < 10 then char_of (48 + d) else char_of (87 + d))"

definition json_escape_char :: "char \<Rightarrow> string" where
  "json_escape_char c =
     (let n = (of_char c :: nat) in
      if n = 0x22 then [CHR 0x5C, CHR 0x22]
      else if n = 0x5C then [CHR 0x5C, CHR 0x5C]
      else if n = 0x0A then [CHR 0x5C, CHR ''n'']
      else if n = 0x0D then [CHR 0x5C, CHR ''r'']
      else if n = 0x09 then [CHR 0x5C, CHR ''t'']
      else if n = 0x08 then [CHR 0x5C, CHR ''b'']
      else if n = 0x0C then [CHR 0x5C, CHR ''f'']
      else if 0x20 \<le> n \<and> n \<le> 0x7E then [c]
      else [CHR 0x5C, CHR ''u'', CHR ''0'', CHR ''0'', hex_digit (n div 16), hex_digit (n mod 16)])"

definition encode_basestring_ascii :: "string \<Rightarrow> string" where
  "encode_basestring_ascii s = CHR 0x22 # concat (map json_escape_char s) @ [CHR 0x22]"

definition newline_indent :: "nat \<Rightarrow> string" where
  "newline_indent level = CHR 0x0A # replicate (2 * level) CHR '' ''"

fun intercalate :: "string \<Rightarrow> string list \<Rightarrow> string" where
  "intercalate sep [] = []"
| "intercalate sep [x] = x"
| "intercalate sep (x # y # ys) = x @ sep @ intercalate sep (y # ys)"

fun iterencode :: "nat \<Rightarrow> json \<Rightarrow> string" where
  "iterencode level JNull = ''null''"
| "iterencode level (JBool b) = (if b then ''true'' else ''false'')"
| "iterencode level (JInt i) = str_int i"
| "iterencode level (JFloat r) = r"
| "iterencode level (JStr s) = encode_basestring_ascii s"
| "iterencode level (JArr vs) =
     (if vs = [] then ''[]''
      else ''['' @ newline_indent (Suc level) @
           intercalate ('','' @ newline_indent (Suc level)) (map (iterencode (Suc level)) vs) @
           newline_indent level @ '']'')"
| "iterencode level (JObj ms) =
     (if ms = [] then ''{}''
      else ''{'' @ newline_indent (Suc level) @
           intercalate ('','' @ newline_indent (Suc level))
             (map (\<lambda>m. encode_basestring_ascii (fst m) @ '': '' @ iterencode (Suc level) (snd m)) ms) @
           newline_indent level @ ''}'')"

definition json_dumps :: "json \<Rightarrow> string" where
  "json_dumps v = iterencode 0 v"

subsection \<open>\<^verbatim>\<open>json.loads\<close>\<close>

text \<open>
  The decoder of the standard library, character by character.  Each scanner
  returns the value and the text after it, \<open>None\<close> where the library raises
  \<^verbatim>\<open>JSONDecodeError\<close>.  \<open>float_repr\<close> is the library's reading of a number
  literal with a fraction or an exponent, as the \<^verbatim>\<open>repr\<close> of the float.  An
  escape \<^verbatim>\<open>\uXXXX\<close> of a code point above 255 has no character here and is
  refused.
\<close>

definition is_ws :: "char \<Rightarrow> bool" where
  "is_ws c = (c = CHR '' '' \<or> c = CHR 0x09 \<or> c = CHR 0x0A \<or> c = CHR 0x0D)"

definition skip_ws :: "string \<Rightarrow> string" where
  "skip_ws s = dropWhile is_ws s"

definition hex_val :: "char \<Rightarrow> nat option" where
  "hex_val c =
     (let n = (of_char c :: nat) in
      if 48 \<le> n \<and> n \<le> 57 then Some (n - 48)
      else if 97 \<le> n \<and> n \<le> 102 then Some (n - 87)
      else if 65 \<le> n \<and> n \<le> 70 then Some (n - 55)
      else None)"

definition hex4 :: "string \<Rightarrow> nat option" where
  "hex4 hs =
     (case map hex_val hs of
        [Some a, Some b, Some c, Some d] \<Rightarrow> Some (((a * 16 + b) * 16 + c) * 16 + d)
      | _ \<Rightarrow> None)"

definition unescape :: "char \<Rightarrow> char option" where
  "unescape e =
     (if e = CHR 0x22 then Some (CHR 0x22)
      else if e = CHR 0x5C then Some (CHR 0x5C)
      else if e = CHR ''/'' then Some (CHR ''/'')
      else if e = CHR ''b'' then Some (CHR 0x08)
      else if e = CHR ''f'' then Some (CHR 0x0C)
      else if e = CHR ''n'' then Some (CHR 0x0A)
      else if e = CHR ''r'' then Some (CHR 0x0D)
      else if e = CHR ''t'' then Some (CHR 0x09)
      else None)"

text \<open>\<open>scanstring acc s\<close>: \<open>s\<close> is the text after the opening quote.\<close>

function scanstring :: "string \<Rightarrow> string \<Rightarrow> (string \<times> string) option" where
  "scanstring acc [] = None"
| "scanstring acc (c # cs) =
     (if c = CHR 0x22 then Some (acc, cs)
      else if c = CHR 0x5C then
        (case cs of
           [] \<Rightarrow> None
         | e # r \<Rightarrow>
             if e = CHR ''u'' then
               (case hex4 (take 4 r) of
                  None \<Rightarrow> None
                | Some n \<Rightarrow> if n < 256 then scanstring (acc @ [char_of n]) (drop 4 r) else None)
             else
               (case unescape e of
                  None \<Rightarrow> None
                | Some ch \<Rightarrow> scanstring (acc @ [ch]) r))
      else if (of_char c :: nat) < 0x20 then None
      else scanstring (acc @ [c]) cs)"
  by pat_completeness auto
termination
  by (relation "measure (\<lambda>(acc, s). length s)") auto

definition digits_nat :: "string \<Rightarrow> nat" where
  "digits_nat ds = foldl (\<lambda>a c. 10 * a + digit_val c) 0 ds"

text \<open>
  A number literal, \<^verbatim>\<open>(-?(?:0|[1-9]\d*))(\.\d+)?([eE][-+]?\d+)?\<close>: an integer
  when it has neither fraction nor exponent.
\<close>

definition scan_number :: "(string \<Rightarrow> string) \<Rightarrow> string \<Rightarrow> (json \<times> string) option" where
  "scan_number float_repr s =
     (let neg = (s \<noteq> [] \<and> hd s = CHR ''-'');
          r0 = (if neg then tl s else s);
          ds = (if r0 \<noteq> [] \<and> hd r0 = CHR ''0'' then ''0'' else takeWhile is_digit r0);
          r1 = drop (length ds) r0;
          fs = (if r1 \<noteq> [] \<and> hd r1 = CHR ''.'' \<and> takeWhile is_digit (tl r1) \<noteq> []
                then CHR ''.'' # takeWhile is_digit (tl r1) else []);
          r2 = drop (length fs) r1;
          sg = (if r2 \<noteq> [] \<and> (hd r2 = CHR ''e'' \<or> hd r2 = CHR ''E'') \<and> tl r2 \<noteq> [] \<and>
                   (hd (tl r2) = CHR ''-'' \<or> hd (tl r2) = CHR ''+'') then [hd (tl r2)] else []);
          es = (if r2 \<noteq> [] \<and> (hd r2 = CHR ''e'' \<or> hd r2 = CHR ''E'') \<and>
                   takeWhile is_digit (drop (Suc (length sg)) r2) \<noteq> []
                then hd r2 # sg @ takeWhile is_digit (drop (Suc (length sg)) r2) else []);
          r3 = drop (length es) r2
      in if ds = [] then None
         else if fs = [] \<and> es = [] then
           Some (JInt (if neg then - int (digits_nat ds) else int (digits_nat ds)), r3)
         else Some (JFloat (float_repr (take (length s - length r3) s)), r3))"

definition starts :: "string \<Rightarrow> string \<Rightarrow> bool" where
  "starts pre s = (take (length pre) s = pre)"

text \<open>\<^verbatim>\<open>dict(pairs)\<close>: a repeated key keeps its first place and takes the last value.\<close>

definition py_dict :: "(string \<times> json) list \<Rightarrow> (string \<times> json) list" where
  "py_dict pairs = foldl (\<lambda>d m. AList.update (fst m) (snd m) d) [] pairs"

text \<open>
  \<open>scan_once\<close>, \<open>JSONArray\<close> and \<open>JSONObject\<close>.  The first argument bounds the
  depth of the calls; every call reads at least one character before the next
  begins, so \<open>json_loads\<close> starts with more than the text can use.
\<close>

fun scan_once :: "(string \<Rightarrow> string) \<Rightarrow> nat \<Rightarrow> string \<Rightarrow> (json \<times> string) option"
and JSONArray :: "(string \<Rightarrow> string) \<Rightarrow> nat \<Rightarrow> json list \<Rightarrow> string \<Rightarrow> (json \<times> string) option"
and JSONObject :: "(string \<Rightarrow> string) \<Rightarrow> nat \<Rightarrow> (string \<times> json) list \<Rightarrow> string \<Rightarrow> (json \<times> string) option"
where
  "scan_once fr 0 s = None"
| "scan_once fr (Suc n) s =
     (case s of
        [] \<Rightarrow> None
      | c # r \<Rightarrow>
          if c = CHR 0x22 then
            (case scanstring [] r of None \<Rightarrow> None | Some (str, rest) \<Rightarrow> Some (JStr str, rest))
          else if c = CHR ''{'' then
            (case skip_ws r of
               [] \<Rightarrow> None
             | d # r' \<Rightarrow> if d = CHR ''}'' then Some (JObj [], r') else JSONObject fr n [] (d # r'))
          else if c = CHR ''['' then
            (case skip_ws r of
               [] \<Rightarrow> None
             | d # r' \<Rightarrow> if d = CHR '']'' then Some (JArr [], r') else JSONArray fr n [] (d # r'))
          else if starts ''null'' s then Some (JNull, drop 4 s)
          else if starts ''true'' s then Some (JBool True, drop 4 s)
          else if starts ''false'' s then Some (JBool False, drop 5 s)
          else
            (case scan_number fr s of
               Some res \<Rightarrow> Some res
             | None \<Rightarrow>
                 if starts ''NaN'' s then Some (JFloat ''NaN'', drop 3 s)
                 else if starts ''Infinity'' s then Some (JFloat ''Infinity'', drop 8 s)
                 else if starts ''-Infinity'' s then Some (JFloat ''-Infinity'', drop 9 s)
                 else None))"
| "JSONArray fr 0 acc s = None"
| "JSONArray fr (Suc n) acc s =
     (case scan_once fr n s of
        None \<Rightarrow> None
      | Some (v, r) \<Rightarrow>
          (case skip_ws r of
             [] \<Rightarrow> None
           | d # r' \<Rightarrow>
               if d = CHR '']'' then Some (JArr (acc @ [v]), r')
               else if d = CHR '','' then JSONArray fr n (acc @ [v]) (skip_ws r')
               else None))"
| "JSONObject fr 0 acc s = None"
| "JSONObject fr (Suc n) acc s =
     (case s of
        [] \<Rightarrow> None
      | q # r \<Rightarrow>
          if q \<noteq> CHR 0x22 then None
          else
            (case scanstring [] r of
               None \<Rightarrow> None
             | Some (key, r1) \<Rightarrow>
                 (case skip_ws r1 of
                    [] \<Rightarrow> None
                  | c # r2 \<Rightarrow>
                      if c \<noteq> CHR '':'' then None
                      else
                        (case scan_once fr n (skip_ws r2) of
                           None \<Rightarrow> None
                         | Some (v, r3) \<Rightarrow>
                             (case skip_ws r3 of
                                [] \<Rightarrow> None
                              | d # r4 \<Rightarrow>
                                  if d = CHR ''}'' then Some (JObj (py_dict (acc @ [(key, v)])), r4)
                                  else if d = CHR '','' then JSONObject fr n (acc @ [(key, v)]) (skip_ws r4)
                                  else None)))))"

definition json_loads :: "(string \<Rightarrow> string) \<Rightarrow> string \<Rightarrow> error + json" where
  "json_loads fr s =
     (case scan_once fr (2 * length s + 2) (skip_ws s) of
        None \<Rightarrow> Inl JSONDecodeError
      | Some (v, r) \<Rightarrow> if skip_ws r = [] then Inr v else Inl JSONDecodeError)"

section \<open>Library functions that are parameters\<close>

text \<open>
  What the script takes from libraries that are not modelled here:
  \<^item> \<open>float_repr\<close>: the decoder's reading of a float literal (see above);
  \<^item> \<open>ET_parse\<close>: the element tree of a text, \<open>None\<close> when the parser raises
    \<^verbatim>\<open>ParseError\<close>; \<open>ET_tostring\<close>: \<^verbatim>\<open>ET.tostring(root, encoding='unicode', method='xml')\<close>;
  \<^item> \<open>para_text\<close>: the text a \<^verbatim>\<open>Paragraph\<close> shows for a markup string, \<open>None\<close>
    when the constructor refuses the markup.
\<close>

record 'x lib =
  float_repr :: "string \<Rightarrow> string"
  ET_parse :: "string \<Rightarrow> 'x option"
  ET_tostring :: "'x \<Rightarrow> string"
  para_text :: "string \<Rightarrow> string option"

definition new_paragraph :: "'x lib \<Rightarrow> style \<Rightarrow> string \<Rightarrow> error + flowable" where
  "new_paragraph lib st markup =
     (case para_text lib markup of None \<Rightarrow> Inl MarkupError | Some t \<Rightarrow> Inr (Paragraph st t))"

fun map_err :: "('a \<Rightarrow> error + 'b) \<Rightarrow> 'a list \<Rightarrow> error + 'b list" where
  "map_err f [] = Inr []"
| "map_err f (x # xs) =
     (case f x of
        Inl e \<Rightarrow> Inl e
      | Inr y \<Rightarrow> (case map_err f xs of Inl e \<Rightarrow> Inl e | Inr ys \<Rightarrow> Inr (y # ys)))"

section \<open>\<^verbatim>\<open>download_artifact\<close>, \<^verbatim>\<open>clean_output_dir\<close>, \<^verbatim>\<open>unzip_to_dir\<close>\<close>

definition download_artifact :: "server \<Rightarrow> string \<Rightarrow> int \<Rightarrow> world \<Rightarrow> (error + path) \<times> world" where
  "download_artifact srv project_id jid w =
     (let w1 = w\<lparr>requests := requests w @ [Artifacts project_id jid]\<rparr>;
          output_filename = [''job_'' @ str_int jid @ ''_artifacts.zip'']
      in case get_artifacts srv project_id jid of
           Inl e \<Rightarrow> (Inl e, w1)
         | Inr body \<Rightarrow>
             (case write_file output_filename body (fs w1) of
                Inl e \<Rightarrow> (Inl e, w1)
              | Inr f \<Rightarrow> (Inr output_filename, w1\<lparr>fs := f\<rparr>)))"


text \<open>
  One member of \<^verbatim>\<open>ZipFile.extractall\<close>: the directories above the target are
  made when missing, then the file is written.  A member's name is the list of
  its components, as the library cleans it.
\<close>

definition extract_member :: "path \<Rightarrow> path \<times> content \<Rightarrow> node \<Rightarrow> error + node" where
  "extract_member extract_dir m f =
     (let targetpath = extract_dir @ fst m; upperdirs = butlast targetpath in
      if upperdirs \<noteq> [] \<and> \<not> exists_path upperdirs f then
        (case makedirs upperdirs f of
           Inl e \<Rightarrow> Inl e
         | Inr f' \<Rightarrow> write_file targetpath (snd m) f')
      else write_file targetpath (snd m) f)"

text \<open>The members in order; what was extracted before a failure stays.\<close>

fun extractall :: "path \<Rightarrow> (path \<times> content) list \<Rightarrow> node \<Rightarrow> (error + unit) \<times> node" where
  "extractall extract_dir [] f = (Inr (), f)"
| "extractall extract_dir (m # ms) f =
     (case extract_member extract_dir m f of
        Inl e \<Rightarrow> (Inl e, f)
      | Inr f' \<Rightarrow> extractall extract_dir ms f')"

definition open_zip :: "path \<Rightarrow> node \<Rightarrow> error + (path \<times> content) list" where
  "open_zip zip_path f =
     (case read_file zip_path f of
        Inl e \<Rightarrow> Inl e
      | Inr (Zip ms) \<Rightarrow> Inr ms
      | Inr other \<Rightarrow> Inl BadZipFile)"

definition unzip_to_dir :: "path \<Rightarrow> path \<Rightarrow> world \<Rightarrow> (error + unit) \<times> world" where
  "unzip_to_dir zip_path extract_dir w =
     (case (if \<not> exists_path extract_dir (fs w) then makedirs extract_dir (fs w) else Inr (fs w)) of
        Inl e \<Rightarrow> (Inl e, w)
      | Inr f1 \<Rightarrow>
          (case open_zip zip_path f1 of
             Inl e \<Rightarrow> (Inl e, w\<lparr>fs := f1\<rparr>)
           | Inr ms \<Rightarrow>
               (case extractall extract_dir ms f1 of
                  (Inl e, f2) \<Rightarrow> (Inl e, w\<lparr>fs := f2\<rparr>)
                | (Inr u, f2) \<Rightarrow>
                    (case os_remove zip_path f2 of
                       Inl e \<Rightarrow> (Inl e, w\<lparr>fs := f2\<rparr>)
                     | Inr f3 \<Rightarrow> (Inr (), w\<lparr>fs := f3\<rparr>)))))"

section \<open>\<^verbatim>\<open>json_to_pdf\<close> and \<^verbatim>\<open>xml_to_pdf\<close>\<close>

text \<open>
  A document is the list of its flowables, each with the text it shows;
  \<^verbatim>\<open>doc.build(elements)\<close> writes it in one step.  A file that is not text
  (a document or an archive) parses neither as JSON nor as XML.
\<close>

definition nbsp_line :: "string \<Rightarrow> string" where
  "nbsp_line line =
     (let leading_spaces = length line - length (dropWhile (\<lambda>c. c = CHR '' '') line) in
      if leading_spaces > 0 then concat (replicate leading_spaces ''&nbsp;'') @ drop leading_spaces line
      else line)"

definition json_load :: "'x lib \<Rightarrow> path \<Rightarrow> node \<Rightarrow> error + json" where
  "json_load lib json_path f =
     (case read_file json_path f of
        Inl e \<Rightarrow> Inl e
      | Inr (Text s) \<Rightarrow> json_loads (float_repr lib) s
      | Inr other \<Rightarrow> Inl JSONDecodeError)"

definition json_elements :: "'x lib \<Rightarrow> string \<Rightarrow> json \<Rightarrow> error + flowable list" where
  "json_elements lib base json_data =
     (let json_str = json_dumps json_data in
      case new_paragraph lib Title base of
        Inl e \<Rightarrow> Inl e
      | Inr title \<Rightarrow>
          (case map_err (\<lambda>line. new_paragraph lib Monospace (nbsp_line line)) (split_lines json_str) of
             Inl e \<Rightarrow> Inl e
           | Inr ps \<Rightarrow> Inr (title # ps)))"

definition json_to_pdf :: "'x lib \<Rightarrow> path \<Rightarrow> path \<Rightarrow> world \<Rightarrow> (error + unit) \<times> world" where
  "json_to_pdf lib json_path pdf_path w =
     (case json_load lib json_path (fs w) of
        Inl e \<Rightarrow> (Inl e, w)
      | Inr json_data \<Rightarrow>
          (case json_elements lib (last json_path) json_data of
             Inl e \<Rightarrow> (Inl e, w)
           | Inr elements \<Rightarrow>
               (case write_file pdf_path (Pdf elements) (fs w) of
                  Inl e \<Rightarrow> (Inl e, w)
                | Inr f \<Rightarrow> (Inr (), w\<lparr>fs := f\<rparr>))))"

definition ET_parse_file :: "'x lib \<Rightarrow> path \<Rightarrow> node \<Rightarrow> error + 'x" where
  "ET_parse_file lib xml_path f =
     (case read_file xml_path f of
        Inl e \<Rightarrow> Inl e
      | Inr (Text s) \<Rightarrow> (case ET_parse lib s of None \<Rightarrow> Inl ParseError | Some t \<Rightarrow> Inr t)
      | Inr other \<Rightarrow> Inl ParseError)"

definition xml_elements :: "'x lib \<Rightarrow> string \<Rightarrow> 'x \<Rightarrow> error + flowable list" where
  "xml_elements lib base root =
     (let xml_str = ET_tostring lib root in
      case new_paragraph lib Title (html_escape base) of
        Inl e \<Rightarrow> Inl e
      | Inr title \<Rightarrow>
          (case map_err (\<lambda>line. new_paragraph lib Monospace (html_escape line)) (split_lines xml_str) of
             Inl e \<Rightarrow> Inl e
           | Inr ps \<Rightarrow> Inr (title # ps)))"

text \<open>The body of the \<^verbatim>\<open>try\<close> of \<^verbatim>\<open>xml_to_pdf\<close>, then its two handlers.\<close>

definition xml_to_pdf_try :: "'x lib \<Rightarrow> path \<Rightarrow> path \<Rightarrow> node \<Rightarrow> error + node" where
  "xml_to_pdf_try lib xml_path pdf_path f =
     (case ET_parse_file lib xml_path f of
        Inl e \<Rightarrow> Inl e
      | Inr root \<Rightarrow>
          (case xml_elements lib (last xml_path) root of
             Inl e \<Rightarrow> Inl e
           | Inr elements \<Rightarrow> write_file pdf_path (Pdf elements) f))"

definition xml_to_pdf :: "'x lib \<Rightarrow> path \<Rightarrow> path \<Rightarrow> world \<Rightarrow> world" where
  "xml_to_pdf lib xml_path pdf_path w =
     (case xml_to_pdf_try lib xml_path pdf_path (fs w) of
        Inr f \<Rightarrow> w\<lparr>fs := f\<rparr>
      | Inl e \<Rightarrow>
          if e = ParseError then w\<lparr>stdout := stdout w @ [XmlParsingError]\<rparr>
          else w\<lparr>stdout := stdout w @ [XmlConvertFailed e]\<rparr>)"

section \<open>\<^verbatim>\<open>zip_pdfs\<close>\<close>

text \<open>
  The archive that \<^verbatim>\<open>zip_pdfs\<close> writes holds one entry per
  \<^verbatim>\<open>zipf.write(pdf_file, arcname)\<close>, in the order of the calls; a name written
  twice is stored twice.  \<open>zip_read\<close> is what reading a name from the archive
  gives: the entry written last.  \<^verbatim>\<open>main\<close> never passes \<^verbatim>\<open>zip_filename\<close>, so
  it is the default here.  Opening the archive for writing creates it empty;
  closing it leaves the entries.
\<close>

definition zip_filename :: string where
  "zip_filename = ''reports.zip''"

definition is_pdf_name :: "string \<Rightarrow> bool" where
  "is_pdf_name file = endswith (lower file) ''.pdf''"

definition find_pdf_files :: "path \<Rightarrow> node \<Rightarrow> path list" where
  "find_pdf_files output_dir f = filter (\<lambda>p. is_pdf_name (last p)) (os_walk_files output_dir f)"

definition zip_entry :: "string \<Rightarrow> node \<Rightarrow> path \<Rightarrow> error + (path \<times> content)" where
  "zip_entry pdf_prefix f pdf_file =
     (case read_file pdf_file f of
        Inl e \<Rightarrow> Inl e
      | Inr c \<Rightarrow> Inr ([pdf_prefix @ last pdf_file], c))"


definition zip_pdfs :: "path \<Rightarrow> string \<Rightarrow> world \<Rightarrow> (error + unit) \<times> world" where
  "zip_pdfs output_dir pdf_prefix w =
     (let pdf_files = find_pdf_files output_dir (fs w) in
      if pdf_files = [] then (Inr (), w\<lparr>stdout := stdout w @ [NoPdfFiles]\<rparr>)
      else
        let zip_path = output_dir @ [pdf_prefix @ zip_filename] in
        case write_file zip_path (Zip []) (fs w) of
          Inl e \<Rightarrow> (Inl e, w)
        | Inr f0 \<Rightarrow>
            (case map_err (zip_entry pdf_prefix f0) pdf_files of
               Inl e \<Rightarrow> (Inl e, w\<lparr>fs := f0\<rparr>)
             | Inr entries \<Rightarrow>
                 (case write_file zip_path (Zip entries) f0 of
                    Inl e \<Rightarrow> (Inl e, w\<lparr>fs := f0\<rparr>)
                  | Inr f \<Rightarrow> (Inr (), w\<lparr>fs := f, stdout := stdout w @ [ZippedTo zip_path]\<rparr>))))"

section \<open>\<^verbatim>\<open>process_job\<close>\<close>

text \<open>
  The loop over \<^verbatim>\<open>os.listdir(extract_dir)\<close>: the names are those listed when
  the loop starts.  An exception of \<^verbatim>\<open>json_to_pdf\<close> leaves the loop;
  \<^verbatim>\<open>xml_to_pdf\<close> raises none.
\<close>

definition pdf_name :: "string \<Rightarrow> string" where
  "pdf_name filename = fst (splitext filename) @ ''.pdf''"

fun render_all :: "'x lib \<Rightarrow> path \<Rightarrow> string list \<Rightarrow> world \<Rightarrow> (error + unit) \<times> world" where
  "render_all lib extract_dir [] w = (Inr (), w)"
| "render_all lib extract_dir (filename # rest) w =
     (if endswith filename ''.json'' then
        (case json_to_pdf lib (extract_dir @ [filename]) (extract_dir @ [pdf_name filename]) w of
           (Inl e, w') \<Rightarrow> (Inl e, w')
         | (Inr u, w') \<Rightarrow> render_all lib extract_dir rest w')
      else if endswith filename ''.xml'' then
        render_all lib extract_dir rest
          (xml_to_pdf lib (extract_dir @ [filename]) (extract_dir @ [pdf_name filename]) w)
      else render_all lib extract_dir rest w)"

text \<open>What \<^verbatim>\<open>process_job\<close> does after \<^verbatim>\<open>get_job_id\<close> has returned \<open>jid\<close>.\<close>

definition fetch_and_render ::
  "'x lib \<Rightarrow> server \<Rightarrow> string \<Rightarrow> string \<Rightarrow> path \<Rightarrow> int \<Rightarrow> world \<Rightarrow> (error + unit) \<times> world"
where
  "fetch_and_render lib srv nm project_id output_dir jid w =
     (case download_artifact srv project_id jid w of
        (Inl e, w1) \<Rightarrow> (Inl e, w1)
      | (Inr zip_path, w1) \<Rightarrow>
          (let w2 = w1\<lparr>stdout := stdout w1 @ [Downloaded nm zip_path]\<rparr>;
               extract_dir = output_dir @ [''job_'' @ str_int jid]
           in case unzip_to_dir zip_path extract_dir w2 of
                (Inl e, w3) \<Rightarrow> (Inl e, w3)
              | (Inr u, w3) \<Rightarrow>
                  (case listdir extract_dir (fs w3) of
                     Inl e \<Rightarrow> (Inl e, w3)
                   | Inr names \<Rightarrow> render_all lib extract_dir names w3)))"

text \<open>The body of the \<^verbatim>\<open>try\<close> of \<^verbatim>\<open>process_job\<close>.\<close>

definition process_job_try ::
  "'x lib \<Rightarrow> server \<Rightarrow> string \<Rightarrow> string \<Rightarrow> string \<Rightarrow> path \<Rightarrow> world \<Rightarrow> ((error + unit) \<times> world) option"
where
  "process_job_try lib srv nm project_id pipeline_id output_dir w =
     (case get_job_id srv project_id pipeline_id nm w of
        None \<Rightarrow> None
      | Some (Inl e, w1) \<Rightarrow> Some (Inl e, w1)
      | Some (Inr jid, w1) \<Rightarrow> Some (fetch_and_render lib srv nm project_id output_dir jid w1))"

definition process_job ::
  "'x lib \<Rightarrow> server \<Rightarrow> string \<Rightarrow> string \<Rightarrow> string \<Rightarrow> path \<Rightarrow> world \<Rightarrow> (bool \<times> world) option"
where
  "process_job lib srv nm project_id pipeline_id output_dir w =
     (case process_job_try lib srv nm project_id pipeline_id output_dir w of
        None \<Rightarrow> None
      | Some (Inr u, w') \<Rightarrow> Some (True, w')
      | Some (Inl e, w') \<Rightarrow> Some (False, w'\<lparr>stdout := stdout w' @ [JobFailed nm e]\<rparr>))"

section \<open>\<^verbatim>\<open>main\<close>\<close>

text \<open>
  One entry of the configuration file; the identifiers are held as the text the
  f-strings print for them.  The jobs of a configuration run one after the
  other, in the order they are submitted: the worker threads are not modelled.
\<close>

record config =
  project_id :: string
  pipeline_id :: string
  pdf_prefix :: string
  job_names :: "string list"






section \<open>Job listings\<close>

text \<open>
  A server serves the listing \<open>pages\<close> when page \<open>i + 1\<close> is answered with
  the jobs \<open>pages ! i\<close>, every page but the last carries an \<^verbatim>\<open>X-Next-Page\<close>
  header that reads as the number of the next page, and the last page carries
  none, or an empty one.
\<close>

definition page_request :: "string \<Rightarrow> string \<Rightarrow> nat \<Rightarrow> request" where
  "page_request pr pl i = JobsPage pr pl (int i + 1)"

definition serves_page :: "server \<Rightarrow> string \<Rightarrow> string \<Rightarrow> job list list \<Rightarrow> nat \<Rightarrow> bool" where
  "serves_page srv pr pl pages i =
     (case list_jobs srv pr pl (int i + 1) of
        Inl e \<Rightarrow> False
      | Inr r \<Rightarrow>
          jobs r = pages ! i \<and>
          (case x_next_page r of
             None \<Rightarrow> Suc i = length pages
           | Some s \<Rightarrow>
               if s = [] then Suc i = length pages
               else Suc i < length pages \<and> py_int s = Some (int i + 2)))"

definition serves_listing :: "server \<Rightarrow> string \<Rightarrow> string \<Rightarrow> job list list \<Rightarrow> bool" where
  "serves_listing srv pr pl pages =
     (pages \<noteq> [] \<and> list_all (serves_page srv pr pl pages) [0..<length pages])"

text \<open>
  A listing with finitely many pages, whatever its page numbers: every page
  from 1 on is answered, and a cursor, where one is returned, names a later
  page that is at most \<open>N\<close>.
\<close>

definition page_advances :: "server \<Rightarrow> string \<Rightarrow> string \<Rightarrow> int \<Rightarrow> int \<Rightarrow> bool" where
  "page_advances srv pr pl N p =
     (case list_jobs srv pr pl p of
        Inl e \<Rightarrow> False
      | Inr r \<Rightarrow>
          (case x_next_page r of
             None \<Rightarrow> True
           | Some s \<Rightarrow> s = [] \<or> (case py_int s of None \<Rightarrow> False | Some q \<Rightarrow> p < q \<and> q \<le> N)))"

definition finite_listing :: "server \<Rightarrow> string \<Rightarrow> string \<Rightarrow> int \<Rightarrow> bool" where
  "finite_listing srv pr pl N = (\<forall>p. 1 \<le> p \<longrightarrow> page_advances srv pr pl N p)"

definition job_outcome :: "server \<Rightarrow> string \<Rightarrow> string \<Rightarrow> string \<Rightarrow> error + int \<Rightarrow> bool" where
  "job_outcome srv pr pl nm res =
     (res = Inl (NotFound nm) \<or>
      (\<exists>p r j. list_jobs srv pr pl p = Inr r \<and> find_job nm (jobs r) = Some j \<and> res = Inr (job_id j)))"

section \<open>What a run changes in the file system\<close>















section \<open>Examples\<close>

text \<open>
  A server with a listing of two pages and four jobs, a library in which one
  text is well-formed XML and markup without tags shows its entities as
  characters, and an empty working directory.
\<close>

definition example_pages :: "job list list" where
  "example_pages =
     [[\<lparr>job_name = ''build'', job_id = 10\<rparr>, \<lparr>job_name = ''lint'', job_id = 12\<rparr>],
      [\<lparr>job_name = ''docs'', job_id = 13\<rparr>, \<lparr>job_name = ''test'', job_id = 11\<rparr>]]"

definition example_artifacts :: "int \<Rightarrow> error + content" where
  "example_artifacts jid =
     (if jid = 10 then Inr (Zip [([''a.json''], Text ''1''), ([''b.json''], Text ''{'')])
      else if jid = 11 then Inr (Zip [([''r.json''], Text ''[]'')])
      else if jid = 12 then Inr (Zip [([''d.xml'', ''inner.txt''], Text ''x'')])
      else if jid = 13 then Inr (Zip [([''d.json'', ''inner.json''], Text ''1'')])
      else Inl RequestFailed)"

definition example_server :: server where
  "example_server =
     \<lparr>list_jobs = (\<lambda>pr pl p.
        if p = 1 then Inr \<lparr>jobs = example_pages ! 0, x_next_page = Some ''2''\<rparr>
        else if p = 2 then Inr \<lparr>jobs = example_pages ! 1, x_next_page = Some ''''\<rparr>
        else Inr \<lparr>jobs = [], x_next_page = None\<rparr>),
      get_artifacts = (\<lambda>pr jid. example_artifacts jid)\<rparr>"

definition empty_world :: world where
  "empty_world = \<lparr>fs = Dir [], stdout = [], requests = []\<rparr>"

text \<open>
  The text a paragraph shows for markup without tags: each character entity
  stands for its character.
\<close>

definition entities :: "(string \<times> char) list" where
  "entities =
     [(''amp;'', CHR ''&''), (''lt;'', CHR ''<''), (''gt;'', CHR ''>''), (''quot;'', CHR 0x22),
      (''#x27;'', CHR 0x27), (''nbsp;'', CHR 0xA0)]"

function entity_text :: "string \<Rightarrow> string" where
  "entity_text [] = []"
| "entity_text (c # cs) =
     (if c = CHR ''&'' then
        (case find (\<lambda>e. starts (fst e) cs) entities of
           None \<Rightarrow> c # entity_text cs
         | Some e \<Rightarrow> snd e # entity_text (drop (length (fst e)) cs))
      else c # entity_text cs)"
  by pat_completeness auto
termination
  by (relation "measure length") auto

definition example_lib :: "string lib" where
  "example_lib =
     \<lparr>float_repr = (\<lambda>s. s),
      ET_parse = (\<lambda>s. if s = ''<a/>'' then Some ''<a />'' else None),
      ET_tostring = (\<lambda>t. t),
      para_text = (\<lambda>s. if CHR ''<'' \<in> set s then None else Some (entity_text s))\<rparr>"

text \<open>
  Four working directories: one whose only file has an upper-case extension, one
  without documents, one with two documents of the same name in two job
  directories, and one with an XML file that is not well-formed.
\<close>

definition upper_world :: world where
  "upper_world =
     \<lparr>fs = Dir [(''out'', Dir [(''REPORT.PDF'', File (Text ''%PDF''))])], stdout = [], requests = []\<rparr>"

definition no_pdf_world :: world where
  "no_pdf_world =
     \<lparr>fs = Dir [(''out'', Dir [(''notes.txt'', File (Text ''hi'')),
                              (''job_1'', Dir [(''data.json'', File (Text ''1''))])])],
      stdout = [], requests = []\<rparr>"


definition xml_world :: world where
  "xml_world =
     \<lparr>fs = Dir [(''job_1'', Dir [(''bad.xml'', File (Text ''<a''))])], stdout = [], requests = []\<rparr>"

text \<open>
  A JSON file with the keys \<^verbatim>\<open>&amp;\<close> and \<^verbatim>\<open>&\<close>, an extracted directory
  that holds directories named like JSON and XML files, and a configuration
  with two jobs that fail and one that succeeds.
\<close>

definition keys_world :: world where
  \<open>keys_world =
     \<lparr>fs = Dir [(''job_1'', Dir [(''keys.json'', File (Text ''{"&amp;": 1, "&": 2}''))])],
      stdout = [], requests = []\<rparr>\<close>

definition dirs_world :: world where
  "dirs_world =
     \<lparr>fs = Dir [(''job_13'', Dir [(''s.json'', File (Text ''1'')),
                                 (''d.json'', Dir [(''inner.json'', File (Text ''2''))]),
                                 (''e.xml'', Dir [])])],
      stdout = [], requests = []\<rparr>"


text \<open>
  The text of a document as a reader sees it: the paragraphs after the title,
  one per line, with each non-breaking space read as a space.
\<close>

fun flowable_text :: "flowable \<Rightarrow> string" where
  "flowable_text (Paragraph st t) = t"

definition shown_text :: "flowable list \<Rightarrow> string" where
  "shown_text elements =
     intercalate [CHR 0x0A]
       (map (\<lambda>e. map (\<lambda>c. if c = CHR 0xA0 then CHR '' '' else c) (flowable_text e)) (tl elements))"

section \<open>Properties of \<^verbatim>\<open>get_job_id\<close>\<close>

lemma serves_listingD:
  "serves_listing srv pr pl pages \<Longrightarrow> i < length pages \<Longrightarrow> serves_page srv pr pl pages i"
  by (simp add: serves_listing_def list_all_iff)

lemma loop_last_page:
  assumes "serves_page srv pr pl pages i" and "Suc i = length pages"
  shows "get_job_id_loop srv pr pl nm (int i + 1) w =
           Some (case find_job nm (pages ! i) of
                   None \<Rightarrow> Inl (NotFound nm)
                 | Some j \<Rightarrow> Inr (job_id j),
                 w\<lparr>requests := requests w @ [page_request pr pl i]\<rparr>)"
  using assms
  by (subst get_job_id_loop.simps)
     (auto simp: serves_page_def page_request_def Let_def split: sum.splits option.splits if_splits)

lemma loop_inner_page:
  assumes "serves_page srv pr pl pages i" and "Suc i < length pages"
  shows "get_job_id_loop srv pr pl nm (int i + 1) w =
           (case find_job nm (pages ! i) of
              Some j \<Rightarrow> Some (Inr (job_id j), w\<lparr>requests := requests w @ [page_request pr pl i]\<rparr>)
            | None \<Rightarrow> get_job_id_loop srv pr pl nm (int (Suc i) + 1)
                        (w\<lparr>requests := requests w @ [page_request pr pl i]\<rparr>))"
  using assms
  by (subst get_job_id_loop.simps)
     (auto simp: serves_page_def page_request_def Let_def add.commute
           split: sum.splits option.splits if_splits)

lemma loop_not_found:
  assumes "serves_listing srv pr pl pages"
  shows "i < length pages \<Longrightarrow> \<forall>k. i \<le> k \<and> k < length pages \<longrightarrow> find_job nm (pages ! k) = None \<Longrightarrow>
         get_job_id_loop srv pr pl nm (int i + 1) w =
           Some (Inl (NotFound nm), w\<lparr>requests := requests w @ map (page_request pr pl) [i..<length pages]\<rparr>)"
proof (induction "length pages - i" arbitrary: i w)
  case 0
  then show ?case by simp
next
  case (Suc d)
  have sp: "serves_page srv pr pl pages i" using assms Suc.prems(1) by (rule serves_listingD)
  have nf: "find_job nm (pages ! i) = None" using Suc.prems by simp
  show ?case
  proof (cases "Suc i = length pages")
    case True
    then have "[i..<length pages] = [i]" by (metis upt_rec lessI upt_eq_Nil_conv le_refl)
    with loop_last_page[OF sp True, of nm w] nf show ?thesis by simp
  next
    case False
    with Suc.prems have lt: "Suc i < length pages" by simp
    have d: "d = length pages - Suc i" using Suc.hyps(2) by simp
    have rest: "\<forall>k. Suc i \<le> k \<and> k < length pages \<longrightarrow> find_job nm (pages ! k) = None"
      using Suc.prems(2) by simp
    have upt: "[i..<length pages] = i # [Suc i..<length pages]" using Suc.prems(1) by (simp add: upt_rec)
    show ?thesis
      using loop_inner_page[OF sp lt, of nm w] nf Suc.hyps(1)[OF d lt rest] upt by simp
  qed
qed

lemma loop_found:
  assumes "serves_listing srv pr pl pages" and "m < length pages" and "find_job nm (pages ! m) = Some j"
  shows "i \<le> m \<Longrightarrow> \<forall>k. i \<le> k \<and> k < m \<longrightarrow> find_job nm (pages ! k) = None \<Longrightarrow>
         get_job_id_loop srv pr pl nm (int i + 1) w =
           Some (Inr (job_id j), w\<lparr>requests := requests w @ map (page_request pr pl) [i..<Suc m]\<rparr>)"
proof (induction "m - i" arbitrary: i w)
  case 0
  then have im: "i = m" by simp
  have sp: "serves_page srv pr pl pages m" using assms(1,2) by (rule serves_listingD)
  show ?case
  proof (cases "Suc m = length pages")
    case True
    show ?thesis using loop_last_page[OF sp True, of nm w] assms(3) im by simp
  next
    case False
    with assms(2) have lt: "Suc m < length pages" by simp
    show ?thesis using loop_inner_page[OF sp lt, of nm w] assms(3) im by simp
  qed
next
  case (Suc d)
  then have lt_m: "i < m" by simp
  then have lt: "Suc i < length pages" using assms(2) by simp
  have sp: "serves_page srv pr pl pages i" using assms(1) lt by (simp add: serves_listingD)
  have nf: "find_job nm (pages ! i) = None" using Suc.prems(2) lt_m by simp
  have d: "d = m - Suc i" using Suc.hyps(2) by simp
  have rest: "\<forall>k. Suc i \<le> k \<and> k < m \<longrightarrow> find_job nm (pages ! k) = None"
    using Suc.prems(2) by simp
  have upt: "[i..<Suc m] = i # [Suc i..<Suc m]" using lt_m by (simp add: upt_rec)
  have le: "Suc i \<le> m" using lt_m by simp
  show ?case
    using loop_inner_page[OF sp lt, of nm w] nf Suc.hyps(1)[OF d le rest] upt by simp
qed

lemma find_job_None_iff: "find_job nm js = None \<longleftrightarrow> nm \<notin> job_name ` set js"
  by (auto simp: find_job_def find_None_iff)

lemma loop_terminates:
  assumes fin: "finite_listing srv pr pl N"
  shows "1 \<le> p \<Longrightarrow>
         \<exists>res w'. get_job_id_loop srv pr pl nm p w = Some (res, w') \<and>
                  length (requests w') \<le> length (requests w) + nat (N - p) + 1 \<and>
                  job_outcome srv pr pl nm res"
proof (induction "nat (N - p)" arbitrary: p w rule: less_induct)
  case less
  let ?w1 = "w\<lparr>requests := requests w @ [JobsPage pr pl p]\<rparr>"
  from fin less.prems have adv: "page_advances srv pr pl N p" by (simp add: finite_listing_def)
  then obtain r where r: "list_jobs srv pr pl p = Inr r"
    by (auto simp: page_advances_def split: sum.splits)
  show ?case
  proof (cases "find_job nm (jobs r)")
    case (Some j)
    then have "get_job_id_loop srv pr pl nm p w = Some (Inr (job_id j), ?w1)"
      using r by (subst get_job_id_loop.simps) (simp add: Let_def)
    moreover have "job_outcome srv pr pl nm (Inr (job_id j))"
      using r Some by (auto simp: job_outcome_def)
    ultimately show ?thesis by simp
  next
    case None
    show ?thesis
    proof (cases "x_next_page r = None \<or> x_next_page r = Some []")
      case True
      then have "get_job_id_loop srv pr pl nm p w = Some (Inl (NotFound nm), ?w1)"
        using r None by (subst get_job_id_loop.simps) (auto simp: Let_def)
      then show ?thesis by (simp add: job_outcome_def)
    next
      case False
      then obtain s where s: "x_next_page r = Some s" "s \<noteq> []" by auto
      with adv r obtain q where q: "py_int s = Some q" "p < q" "q \<le> N"
        by (auto simp: page_advances_def split: option.splits)
      have step: "get_job_id_loop srv pr pl nm p w = get_job_id_loop srv pr pl nm q ?w1"
        using r None s q by (subst get_job_id_loop.simps) (simp add: Let_def)
      have "nat (N - q) < nat (N - p)" using q by simp
      moreover have "1 \<le> q" using q less.prems by simp
      ultimately obtain res w' where
        "get_job_id_loop srv pr pl nm q ?w1 = Some (res, w')"
        "length (requests w') \<le> length (requests ?w1) + nat (N - q) + 1"
        "job_outcome srv pr pl nm res"
        using less.hyps[of q ?w1] by blast
      with step q show ?thesis by auto
    qed
  qed
qed

lemma py_int_2: "py_int ''2'' = Some 2"
  by code_simp

lemma example_serves: "serves_listing example_server pr pl example_pages"
  by (simp add: serves_listing_def serves_page_def example_server_def example_pages_def
      py_int_2 upt_rec)

lemma example_finite: "finite_listing example_server pr pl 2"
  by (simp add: finite_listing_def page_advances_def example_server_def py_int_2)

text \<open>
  Claim C1.  When the job name is on no page of the listing, \<^verbatim>\<open>get_job_id\<close>
  requests every page in order and then raises the \<^verbatim>\<open>ValueError\<close> "not
  found"; \<^verbatim>\<open>process_job\<close> catches it and returns \<open>False\<close>, having sent the
  page requests only (no artifact request) and left the file system as it was.
\<close>

theorem get_job_id_not_found:
  assumes "serves_listing srv pr pl pages"
    and "nm \<notin> job_name ` set (concat pages)"
  shows "get_job_id srv pr pl nm w =
           Some (Inl (NotFound nm),
                 w\<lparr>requests := requests w @ map (page_request pr pl) [0..<length pages]\<rparr>) \<and>
         process_job lib srv nm pr pl output_dir w =
           Some (False,
                 w\<lparr>requests := requests w @ map (page_request pr pl) [0..<length pages],
                    stdout := stdout w @ [JobFailed nm (NotFound nm)]\<rparr>)"
proof -
  from assms(1) have ne: "0 < length pages" by (simp add: serves_listing_def)
  have none: "\<forall>k. 0 \<le> k \<and> k < length pages \<longrightarrow> find_job nm (pages ! k) = None"
    using assms(2) by (force simp: find_job_None_iff dest: nth_mem)
  have g: "get_job_id srv pr pl nm w =
           Some (Inl (NotFound nm),
                 w\<lparr>requests := requests w @ map (page_request pr pl) [0..<length pages]\<rparr>)"
    using loop_not_found[OF assms(1) ne none, of w] by (simp add: get_job_id_def)
  then show ?thesis by (simp add: process_job_def process_job_try_def)
qed

theorem get_job_id_not_found_witness:
  "serves_listing example_server ''7'' ''9'' example_pages \<and>
   ''deploy'' \<notin> job_name ` set (concat example_pages) \<and>
   get_job_id example_server ''7'' ''9'' ''deploy'' empty_world =
     Some (Inl (NotFound ''deploy''),
           empty_world\<lparr>requests := [JobsPage ''7'' ''9'' 1, JobsPage ''7'' ''9'' 2]\<rparr>) \<and>
   process_job example_lib example_server ''deploy'' ''7'' ''9'' [''out'', ''project_7_pipeline_9''] empty_world =
     Some (False,
           empty_world\<lparr>requests := [JobsPage ''7'' ''9'' 1, JobsPage ''7'' ''9'' 2],
                        stdout := [JobFailed ''deploy'' (NotFound ''deploy'')]\<rparr>)"
proof -
  have a: "''deploy'' \<notin> job_name ` set (concat example_pages)"
    by (simp add: example_pages_def)
  show ?thesis
    using get_job_id_not_found[OF example_serves a, where lib = example_lib
          and output_dir = "[''out'', ''project_7_pipeline_9'']" and w = empty_world]
      example_serves a
    by (simp add: example_pages_def page_request_def empty_world_def upt_rec)
qed

text \<open>
  Claim C2.  When the first job with the wanted name is on the last page of the
  listing, \<^verbatim>\<open>get_job_id\<close> requests the pages 1 to \<open>length pages\<close>, each once
  and in order, and returns the id of that job.
\<close>

theorem get_job_id_last_page:
  assumes "serves_listing srv pr pl pages"
    and "nm \<notin> job_name ` set (concat (butlast pages))"
    and "find_job nm (last pages) = Some j"
  shows "get_job_id srv pr pl nm w =
           Some (Inr (job_id j),
                 w\<lparr>requests := requests w @ map (page_request pr pl) [0..<length pages]\<rparr>)"
proof -
  from assms(1) have ne: "pages \<noteq> []" by (simp add: serves_listing_def)
  then have m: "length pages - 1 < length pages" by simp
  have lastp: "find_job nm (pages ! (length pages - 1)) = Some j"
    using assms(3) ne by (simp add: last_conv_nth)
  have before: "find_job nm (pages ! k) = None" if "k < length pages - 1" for k
  proof -
    from that have "pages ! k = butlast pages ! k" by (simp add: nth_butlast)
    moreover from that have "butlast pages ! k \<in> set (butlast pages)" by simp
    ultimately show ?thesis using assms(2) by (auto simp: find_job_None_iff)
  qed
  have "get_job_id_loop srv pr pl nm (int 0 + 1) w =
          Some (Inr (job_id j),
                w\<lparr>requests := requests w @ map (page_request pr pl) [0..<Suc (length pages - 1)]\<rparr>)"
    using before by (intro loop_found[OF assms(1) m lastp]) simp_all
  then show ?thesis using ne by (simp add: get_job_id_def)
qed

theorem get_job_id_last_page_witness:
  "serves_listing example_server ''7'' ''9'' example_pages \<and>
   ''test'' \<notin> job_name ` set (concat (butlast example_pages)) \<and>
   find_job ''test'' (last example_pages) = Some \<lparr>job_name = ''test'', job_id = 11\<rparr> \<and>
   get_job_id example_server ''7'' ''9'' ''test'' empty_world =
     Some (Inr 11, empty_world\<lparr>requests := [JobsPage ''7'' ''9'' 1, JobsPage ''7'' ''9'' 2]\<rparr>)"
proof -
  have a: "''test'' \<notin> job_name ` set (concat (butlast example_pages))"
    by (simp add: example_pages_def)
  have b: "find_job ''test'' (last example_pages) = Some \<lparr>job_name = ''test'', job_id = 11\<rparr>"
    by (simp add: example_pages_def find_job_def)
  show ?thesis
    using get_job_id_last_page[OF example_serves a b, where w = empty_world] example_serves a b
    by (simp add: example_pages_def page_request_def empty_world_def upt_rec)
qed

text \<open>
  Claim C9.  On a listing with finitely many pages \<^verbatim>\<open>get_job_id\<close> returns:
  after at most \<open>max 1 N\<close> page requests it has either raised "not found" or
  returned the id of a job of that name from a page of the listing.
\<close>

theorem get_job_id_terminates:
  assumes "finite_listing srv pr pl N"
  shows "\<exists>res w'. get_job_id srv pr pl nm w = Some (res, w') \<and>
                  length (requests w') \<le> length (requests w) + nat (max 1 N) \<and>
                  job_outcome srv pr pl nm res"
proof -
  obtain res w' where
    "get_job_id_loop srv pr pl nm 1 w = Some (res, w')"
    "length (requests w') \<le> length (requests w) + nat (N - 1) + 1"
    "job_outcome srv pr pl nm res"
    using loop_terminates[OF assms, of 1 nm w] by auto
  then show ?thesis by (auto simp: get_job_id_def)
qed

theorem get_job_id_terminates_witness:
  "finite_listing example_server ''7'' ''9'' 2 \<and>
   (\<exists>res w'. get_job_id example_server ''7'' ''9'' ''test'' empty_world = Some (res, w') \<and>
      length (requests w') \<le> length (requests empty_world) + nat (max 1 2) \<and>
      job_outcome example_server ''7'' ''9'' ''test'' res)"
  using get_job_id_terminates[OF example_finite, where nm = "''test''" and w = empty_world] example_finite
  by simp

section \<open>Properties of the file system\<close>

lemma lookup_append:
  "lookup (p @ q) f = (case lookup p f of None \<Rightarrow> None | Some n \<Rightarrow> lookup q n)"
  by (induction p f rule: lookup.induct) (auto split: option.splits)

lemma lookup_file_below: "q \<noteq> [] \<Longrightarrow> lookup q (File c) = None"
  by (cases q) simp_all

lemma walk_files_lookup:
  "wf_node n \<Longrightarrow> p \<in> set (walk_files root n) \<Longrightarrow>
     \<exists>q c. q \<noteq> [] \<and> p = root @ q \<and> lookup q n = Some (File c)"
proof (induction root n arbitrary: p rule: walk_files.induct)
  case (1 root c)
  then show ?case by simp
next
  case (2 root es)
  from "2.prems"(1) have dist: "distinct (map fst es)" and wfs: "\<forall>e\<in>set es. wf_node (snd e)"
    by (simp_all add: list_all_iff)
  from "2.prems"(2) consider
    (top_file) e where "e \<in> set es" "is_file (snd e)" "p = root @ [fst e]"
    | (sub_dir) e where "e \<in> set es" "\<not> is_file (snd e)" "p \<in> set (walk_files (root @ [fst e]) (snd e))"
    by auto
  then show ?case
  proof cases
    case top_file
    then obtain c where c: "snd e = File c" by (cases "snd e") auto
    have "map_of es (fst e) = Some (snd e)"
      using dist top_file(1) by (cases e) (simp add: map_of_eq_Some_iff)
    then have "lookup [fst e] (Dir es) = Some (File c)" using c by simp
    with top_file(3) show ?thesis by blast
  next
    case sub_dir
    have m: "map_of es (fst e) = Some (snd e)"
      using dist sub_dir(1) by (cases e) (simp add: map_of_eq_Some_iff)
    from "2.IH"[of e p] sub_dir wfs obtain q c where
      q: "q \<noteq> []" "p = (root @ [fst e]) @ q" "lookup q (snd e) = Some (File c)"
      by auto
    then have "lookup (fst e # q) (Dir es) = Some (File c)" using m by simp
    with q(2) show ?thesis by (intro exI[of _ "fst e # q"]) auto
  qed
qed

lemma lookup_walk_files:
  "q \<noteq> [] \<Longrightarrow> lookup q n = Some (File c) \<Longrightarrow> root @ q \<in> set (walk_files root n)"
proof (induction root n arbitrary: q rule: walk_files.induct)
  case (1 root c')
  then show ?case by (simp add: lookup_file_below)
next
  case (2 root es)
  then obtain x xs where q: "q = x # xs" by (cases q) auto
  with "2.prems" obtain n' where n': "map_of es x = Some n'" "lookup xs n' = Some (File c)"
    by (auto split: option.splits)
  then have mem: "(x, n') \<in> set es" by (simp add: map_of_SomeD)
  show ?case
  proof (cases xs)
    case Nil
    with n' have "n' = File c" by simp
    with mem Nil q show ?thesis by force
  next
    case (Cons y ys)
    then have "\<not> is_file n'" using n'(2) by (cases n') simp_all
    moreover have "(root @ [x]) @ xs \<in> set (walk_files (root @ [x]) n')"
      using "2.IH"[of "(x, n')" xs] mem n'(2) Cons \<open>\<not> is_file n'\<close> by simp
    ultimately show ?thesis using mem q by force
  qed
qed

lemma walk_lookup_dir: "walk_files root n \<noteq> [] \<Longrightarrow> \<exists>es. n = Dir es"
  by (cases n) simp_all

lemma map_of_update_same: "map_of (AList.update k v al) k = Some v"
  by (simp add: update_conv')

lemma map_of_update_other: "k' \<noteq> k \<Longrightarrow> map_of (AList.update k v al) k' = map_of al k'"
  by (simp add: update_conv')



lemma lookup_write_file_other:
  "write_file p c f = Inr f' \<Longrightarrow> \<not> prefix q p \<Longrightarrow> lookup q f' = lookup q f"
proof (induction p c f arbitrary: f' q rule: write_file.induct)
  case (3 x c es)
  from "3.prems"(2) obtain z r where q: "q = z # r" by (cases q) auto
  show ?case
  proof (cases "z = x")
    case True
    with q "3.prems"(2) have r: "r \<noteq> []" by auto
    with "3.prems"(1) q True show ?thesis
      by (auto simp: map_of_update_same lookup_file_below split: option.splits node.splits)
  next
    case False
    with "3.prems"(1) q show ?thesis
      by (auto simp: map_of_update_other split: option.splits node.splits)
  qed
next
  case (4 x y ys c es)
  from "4.prems"(2) obtain z r where q: "q = z # r" by (cases q) auto
  from "4.prems"(1) obtain n n' where n: "map_of es x = Some n" "write_file (y # ys) c n = Inr n'"
    "f' = Dir (AList.update x n' es)"
    by (auto split: option.splits sum.splits)
  show ?case
  proof (cases "z = x")
    case True
    with q "4.prems"(2) have "\<not> prefix r (y # ys)" by simp
    with "4.IH"[OF n(1) n(2)] have "lookup r n' = lookup r n" by simp
    with q True n show ?thesis by (simp add: map_of_update_same)
  next
    case False
    with q n show ?thesis by (simp add: map_of_update_other)
  qed
qed simp_all



lemma wf_node_lookup: "wf_node f \<Longrightarrow> lookup p f = Some n \<Longrightarrow> wf_node n"
proof (induction p f rule: lookup.induct)
  case (3 x xs es)
  then show ?case
    by (auto simp: list_all_iff split: option.splits dest!: map_of_SomeD)
qed simp_all




section \<open>Properties of \<^verbatim>\<open>xml_to_pdf\<close>\<close>

text \<open>
  Claim C4.  When the text of the XML file does not parse, the \<^verbatim>\<open>try\<close>
  of \<^verbatim>\<open>xml_to_pdf\<close> ends in \<^verbatim>\<open>ParseError\<close>, the handler prints the parsing
  error, and \<^verbatim>\<open>xml_to_pdf\<close> returns with the file system as it was: nothing is
  raised to the caller and no document is written.
\<close>

theorem xml_to_pdf_malformed:
  assumes "read_file xml_path (fs w) = Inr (Text s)" and "ET_parse lib s = None"
  shows "xml_to_pdf_try lib xml_path pdf_path (fs w) = Inl ParseError \<and>
         xml_to_pdf lib xml_path pdf_path w = w\<lparr>stdout := stdout w @ [XmlParsingError]\<rparr> \<and>
         fs (xml_to_pdf lib xml_path pdf_path w) = fs w"
  using assms by (simp add: xml_to_pdf_def xml_to_pdf_try_def ET_parse_file_def)

theorem xml_to_pdf_malformed_witness:
  "read_file [''job_1'', ''bad.xml''] (fs xml_world) = Inr (Text ''<a'') \<and>
   ET_parse example_lib ''<a'' = None \<and>
   xml_to_pdf example_lib [''job_1'', ''bad.xml''] [''job_1'', ''bad.pdf''] xml_world =
     xml_world\<lparr>stdout := [XmlParsingError]\<rparr> \<and>
   lookup [''job_1'', ''bad.pdf''] (fs (xml_to_pdf example_lib [''job_1'', ''bad.xml''] [''job_1'', ''bad.pdf''] xml_world)) = None"
proof -
  have a: "read_file [''job_1'', ''bad.xml''] (fs xml_world) = Inr (Text ''<a'')" by code_simp
  have b: "ET_parse example_lib ''<a'' = None" by (simp add: example_lib_def)
  have c: "lookup [''job_1'', ''bad.pdf''] (fs xml_world) = None" by code_simp
  have d: "stdout xml_world = []" by (simp add: xml_world_def)
  from xml_to_pdf_malformed[OF a b, of "[''job_1'', ''bad.pdf'']"] a b c d show ?thesis by simp
qed

section \<open>Properties of \<^verbatim>\<open>zip_pdfs\<close>\<close>

lemma walk_files_below: "p \<in> set (walk_files root m) \<Longrightarrow> \<exists>q. q \<noteq> [] \<and> p = root @ q"
proof (induction root m rule: walk_files.induct)
  case (2 root es)
  then consider
    (top_file) e where "e \<in> set es" "p = root @ [fst e]"
    | (sub_dir) e where "e \<in> set es" "\<not> is_file (snd e)" "p \<in> set (walk_files (root @ [fst e]) (snd e))"
    by auto
  then show ?case
  proof cases
    case top_file
    then show ?thesis by blast
  next
    case sub_dir
    with "2.IH"[of e] obtain q where "q \<noteq> []" "p = (root @ [fst e]) @ q" by auto
    then show ?thesis by (intro exI[of _ "fst e # q"]) simp
  qed
qed simp

lemma find_pdf_files_below:
  assumes "p \<in> set (find_pdf_files d f)"
  shows "\<exists>q. q \<noteq> [] \<and> p = d @ q \<and> is_pdf_name (last q)"
proof (cases "lookup d f")
  case None
  with assms show ?thesis by (simp add: find_pdf_files_def os_walk_files_def)
next
  case (Some n)
  with assms have "p \<in> set (walk_files d n)" "is_pdf_name (last p)"
    by (auto simp: find_pdf_files_def os_walk_files_def)
  with walk_files_below[of p d n] show ?thesis by auto
qed

lemma find_pdf_files_read:
  assumes "wf_node f" and "p \<in> set (find_pdf_files d f)"
  shows "\<exists>c. read_file p f = Inr c"
proof (cases "lookup d f")
  case None
  with assms show ?thesis by (simp add: find_pdf_files_def os_walk_files_def)
next
  case (Some n)
  with assms have p: "p \<in> set (walk_files d n)"
    by (auto simp: find_pdf_files_def os_walk_files_def)
  from assms(1) Some have "wf_node n" by (rule wf_node_lookup)
  from walk_files_lookup[OF this p] obtain q c where "p = d @ q" "lookup q n = Some (File c)"
    by auto
  with Some show ?thesis by (simp add: read_file_def lookup_append)
qed

lemma find_pdf_files_ne:
  assumes "q \<noteq> []" and "lookup (d @ q) f = Some (File c)" and "is_pdf_name (last q)"
  shows "find_pdf_files d f \<noteq> []"
proof -
  from assms(2) obtain n where n: "lookup d f = Some n" "lookup q n = Some (File c)"
    by (auto simp: lookup_append split: option.splits)
  from lookup_walk_files[OF assms(1) n(2), of d] assms(1,3) n(1)
  have "d @ q \<in> set (find_pdf_files d f)"
    by (simp add: find_pdf_files_def os_walk_files_def)
  then show ?thesis by auto
qed



text \<open>
  Claim C5, as stated, fails: \<^verbatim>\<open>zip_pdfs\<close> compares the lower-cased name, so a
  directory whose only file is \<^verbatim>\<open>REPORT.PDF\<close> has no file whose name ends in
  \<^verbatim>\<open>.pdf\<close> and still gets an archive.
\<close>

theorem zip_pdfs_uppercase_counterexample:
  "os_walk_files [''out''] (fs upper_world) = [[''out'', ''REPORT.PDF'']] \<and>
   \<not> endswith ''REPORT.PDF'' ''.pdf'' \<and>
   zip_pdfs [''out''] [] upper_world =
     (Inr (),
      \<lparr>fs = Dir [(''out'', Dir [(''REPORT.PDF'', File (Text ''%PDF'')),
                               (''reports.zip'', File (Zip [([''REPORT.PDF''], Text ''%PDF'')]))])],
       stdout = [ZippedTo [''out'', ''reports.zip'']], requests = []\<rparr>)"
  by code_simp

text \<open>
  Claim C5, amended.  When no file anywhere under the output directory has a
  name that ends in \<^verbatim>\<open>.pdf\<close> once lower-cased, \<^verbatim>\<open>zip_pdfs\<close> prints the warning
  and returns with the file system as it was.
\<close>

theorem zip_pdfs_no_pdf:
  assumes "wf_node (fs w)"
    and "\<not> (\<exists>q c. q \<noteq> [] \<and> lookup (d @ q) (fs w) = Some (File c) \<and> is_pdf_name (last q))"
  shows "zip_pdfs d pre w = (Inr (), w\<lparr>stdout := stdout w @ [NoPdfFiles]\<rparr>)"
proof -
  have "find_pdf_files d (fs w) = []"
  proof (rule ccontr)
    assume "find_pdf_files d (fs w) \<noteq> []"
    then obtain p where p: "p \<in> set (find_pdf_files d (fs w))" by (cases "find_pdf_files d (fs w)") auto
    from find_pdf_files_below[OF p] obtain q where q: "q \<noteq> []" "p = d @ q" "is_pdf_name (last q)"
      by blast
    from find_pdf_files_read[OF assms(1) p] q(2) obtain c where "lookup (d @ q) (fs w) = Some (File c)"
      by (auto simp: read_file_def split: option.splits node.splits)
    with q assms(2) show False by blast
  qed
  then show ?thesis by (simp add: zip_pdfs_def)
qed

theorem zip_pdfs_no_pdf_witness:
  "wf_node (fs no_pdf_world) \<and>
   \<not> (\<exists>q c. q \<noteq> [] \<and> lookup ([''out''] @ q) (fs no_pdf_world) = Some (File c) \<and> is_pdf_name (last q)) \<and>
   zip_pdfs [''out''] ''x_'' no_pdf_world = (Inr (), no_pdf_world\<lparr>stdout := [NoPdfFiles]\<rparr>)"
proof -
  have wf: "wf_node (fs no_pdf_world)" by code_simp
  have none: "\<not> (\<exists>q c. q \<noteq> [] \<and> lookup ([''out''] @ q) (fs no_pdf_world) = Some (File c) \<and>
                 is_pdf_name (last q))"
  proof
    assume "\<exists>q c. q \<noteq> [] \<and> lookup ([''out''] @ q) (fs no_pdf_world) = Some (File c) \<and> is_pdf_name (last q)"
    then obtain q c where q: "q \<noteq> []" "lookup ([''out''] @ q) (fs no_pdf_world) = Some (File c)"
      "is_pdf_name (last q)" by blast
    from find_pdf_files_ne[OF q] have "find_pdf_files [''out''] (fs no_pdf_world) \<noteq> []" .
    moreover have "find_pdf_files [''out''] (fs no_pdf_world) = []" by code_simp
    ultimately show False by simp
  qed
  have "stdout no_pdf_world = []" by (simp add: no_pdf_world_def)
  with zip_pdfs_no_pdf[OF wf none, of "''x_''"] wf none show ?thesis by simp
qed



section \<open>Properties of \<^verbatim>\<open>json_to_pdf\<close>\<close>

text \<open>
  Claim C7 fails on a file whose keys hold character entities.  \<^verbatim>\<open>json_to_pdf\<close>
  hands each line to \<^verbatim>\<open>Paragraph\<close> as markup without escaping it (the XML
  path calls \<^verbatim>\<open>html.escape\<close> first), so the key \<^verbatim>\<open>&amp;\<close> is shown as \<^verbatim>\<open>&\<close>:
  the text of the document, parsed again, is an object with the one key \<^verbatim>\<open>&\<close>,
  where the file has two keys.
\<close>

theorem json_to_pdf_entity_keys:
  \<open>json_load example_lib [''job_1'', ''keys.json''] (fs keys_world) =
     Inr (JObj [(''&amp;'', JInt 1), (''&'', JInt 2)]) \<and>
   json_to_pdf example_lib [''job_1'', ''keys.json''] [''job_1'', ''keys.pdf''] keys_world =
     (Inr (),
      keys_world\<lparr>fs := Dir [(''job_1'', Dir [
        (''keys.json'', File (Text ''{"&amp;": 1, "&": 2}'')),
        (''keys.pdf'', File (Pdf [
           Paragraph Title ''keys.json'',
           Paragraph Monospace ''{'',
           Paragraph Monospace ([CHR 0xA0, CHR 0xA0] @ ''"&": 1,''),
           Paragraph Monospace ([CHR 0xA0, CHR 0xA0] @ ''"&": 2''),
           Paragraph Monospace ''}'']))])]\<rparr>) \<and>
   json_loads (\<lambda>s. s) (shown_text [
           Paragraph Title ''keys.json'',
           Paragraph Monospace ''{'',
           Paragraph Monospace ([CHR 0xA0, CHR 0xA0] @ ''"&": 1,''),
           Paragraph Monospace ([CHR 0xA0, CHR 0xA0] @ ''"&": 2''),
           Paragraph Monospace ''}'']) = Inr (JObj [(''&'', JInt 2)])\<close>
  by code_simp

section \<open>Properties of the rendering loop\<close>

lemma write_file_not_dir: "write_file p c f = Inr f' \<Longrightarrow> lookup p f \<noteq> Some (Dir es)"
proof (induction p c f arbitrary: f' rule: write_file.induct)
  case (3 x c es')
  then show ?case by (auto split: option.splits node.splits)
next
  case (4 x y ys c es')
  then show ?case by (auto split: option.splits sum.splits)
qed simp_all

text \<open>A conversion leaves the file system alone or writes one document.\<close>

lemma json_to_pdf_fs:
  assumes "json_to_pdf lib jp pp w = (r, w')"
  shows "stdout w' = stdout w \<and> requests w' = requests w \<and>
         (fs w' = fs w \<or> (\<exists>els. r = Inr () \<and> write_file pp (Pdf els) (fs w) = Inr (fs w')))"
  using assms by (auto simp: json_to_pdf_def split: sum.splits)

lemma xml_to_pdf_fs:
  "requests (xml_to_pdf lib xp pp w) = requests w \<and>
   (fs (xml_to_pdf lib xp pp w) = fs w \<or>
    (\<exists>els. write_file pp (Pdf els) (fs w) = Inr (fs (xml_to_pdf lib xp pp w))))"
  by (auto simp: xml_to_pdf_def xml_to_pdf_try_def split: sum.splits)

lemma write_top_keeps_deep:
  assumes "write_file (d @ [n]) c f = Inr f'" and "q \<noteq> []"
  shows "lookup (d @ x # q) f' = lookup (d @ x # q) f"
proof -
  have "\<not> prefix (d @ x # q) (d @ [n])" using assms(2) by simp
  with assms(1) show ?thesis by (rule lookup_write_file_other)
qed

lemma write_top_keeps_dir:
  assumes "write_file (d @ [n]) c f = Inr f'" and "lookup (d @ [x]) f = Some (Dir es)"
  shows "lookup (d @ [x]) f' = Some (Dir es)"
proof -
  from write_file_not_dir[OF assms(1)] assms(2) have "x \<noteq> n" by auto
  then have "\<not> prefix (d @ [x]) (d @ [n])" by simp
  with assms show ?thesis by (simp add: lookup_write_file_other)
qed

lemma render_all_deep:
  "render_all lib d names w = (r, w') \<Longrightarrow> q \<noteq> [] \<Longrightarrow>
     lookup (d @ x # q) (fs w') = lookup (d @ x # q) (fs w)"
proof (induction names arbitrary: w)
  case Nil
  then show ?case by simp
next
  case (Cons y ys)
  show ?case
  proof (cases "endswith y ''.json''")
    case True
    obtain r1 w1 where j: "json_to_pdf lib (d @ [y]) (d @ [pdf_name y]) w = (r1, w1)" by fastforce
    from json_to_pdf_fs[OF j] Cons.prems(2)
    have keep: "lookup (d @ x # q) (fs w1) = lookup (d @ x # q) (fs w)"
      by (auto simp: write_top_keeps_deep)
    show ?thesis
    proof (cases r1)
      case (Inl e)
      with Cons.prems True j keep show ?thesis by simp
    next
      case (Inr u)
      with Cons.prems True j have "render_all lib d ys w1 = (r, w')" by simp
      from Cons.IH[OF this Cons.prems(2)] keep show ?thesis by simp
    qed
  next
    case False
    show ?thesis
    proof (cases "endswith y ''.xml''")
      case True
      let ?w1 = "xml_to_pdf lib (d @ [y]) (d @ [pdf_name y]) w"
      from xml_to_pdf_fs[of lib "d @ [y]" "d @ [pdf_name y]" w] Cons.prems(2)
      have keep: "lookup (d @ x # q) (fs ?w1) = lookup (d @ x # q) (fs w)"
        by (auto simp: write_top_keeps_deep)
      from Cons.prems False True have "render_all lib d ys ?w1 = (r, w')" by simp
      from Cons.IH[OF this Cons.prems(2)] keep show ?thesis by simp
    next
      case nx: False
      with Cons.prems False have "render_all lib d ys w = (r, w')" by simp
      from Cons.IH[OF this Cons.prems(2)] show ?thesis .
    qed
  qed
qed

lemma render_all_json_dir:
  "x \<in> set names \<Longrightarrow> endswith x ''.json'' \<Longrightarrow> lookup (d @ [x]) (fs w) = Some (Dir es) \<Longrightarrow>
     \<exists>e w'. render_all lib d names w = (Inl e, w')"
proof (induction names arbitrary: w)
  case Nil
  then show ?case by simp
next
  case (Cons y ys)
  show ?case
  proof (cases "endswith y ''.json''")
    case True
    obtain r1 w1 where j: "json_to_pdf lib (d @ [y]) (d @ [pdf_name y]) w = (r1, w1)" by fastforce
    show ?thesis
    proof (cases r1)
      case (Inl e)
      with True j show ?thesis by simp
    next
      case (Inr u)
      have "y \<noteq> x"
      proof
        assume "y = x"
        with Cons.prems(3) have "json_to_pdf lib (d @ [y]) (d @ [pdf_name y]) w = (Inl IsADirectoryError, w)"
          by (simp add: json_to_pdf_def json_load_def read_file_def)
        with j Inr show False by simp
      qed
      with Cons.prems(1) have mem: "x \<in> set ys" by simp
      from json_to_pdf_fs[OF j] Cons.prems(3) have "lookup (d @ [x]) (fs w1) = Some (Dir es)"
        by (auto simp: write_top_keeps_dir)
      from Cons.IH[OF mem Cons.prems(2) this] True j Inr show ?thesis by simp
    qed
  next
    case False
    with Cons.prems have mem: "x \<in> set ys" by auto
    show ?thesis
    proof (cases "endswith y ''.xml''")
      case True
      let ?w1 = "xml_to_pdf lib (d @ [y]) (d @ [pdf_name y]) w"
      from xml_to_pdf_fs[of lib "d @ [y]" "d @ [pdf_name y]" w] Cons.prems(3)
      have "lookup (d @ [x]) (fs ?w1) = Some (Dir es)"
        by (auto simp: write_top_keeps_dir)
      from Cons.IH[OF mem Cons.prems(2) this] False True show ?thesis by simp
    next
      case nx: False
      from Cons.IH[OF mem Cons.prems(2,3)] False nx show ?thesis by simp
    qed
  qed
qed

lemma xml_to_pdf_dir:
  "lookup xp (fs w) = Some (Dir es) \<Longrightarrow>
     xml_to_pdf lib xp pp w = w\<lparr>stdout := stdout w @ [XmlConvertFailed IsADirectoryError]\<rparr>"
  by (simp add: xml_to_pdf_def xml_to_pdf_try_def ET_parse_file_def read_file_def)

text \<open>
  Claim C10, as stated, fails in its last part: a directory whose name ends in
  \<^verbatim>\<open>.xml\<close> does not fail the job.  \<^verbatim>\<open>xml_to_pdf\<close> catches the error of
  opening it, prints it, and \<^verbatim>\<open>process_job\<close> returns \<open>True\<close>.
\<close>

theorem process_job_xml_dir_counterexample:
  "endswith ''d.xml'' ''.xml'' \<and>
   process_job example_lib example_server ''lint'' ''7'' ''9'' [''out''] empty_world =
     Some (True,
           \<lparr>fs = Dir [(''out'', Dir [(''job_12'', Dir [(''d.xml'', Dir [(''inner.txt'', File (Text ''x''))])])])],
            stdout = [Downloaded ''lint'' [''job_12_artifacts.zip''], XmlConvertFailed IsADirectoryError],
            requests = [JobsPage ''7'' ''9'' 1, Artifacts ''7'' 12]\<rparr>)"
  by code_simp

text \<open>
  Claim C10, amended.  The rendering loop changes nothing below a subdirectory
  of the extracted directory (so no file there is rendered); a listed
  directory whose name ends in \<^verbatim>\<open>.json\<close> makes the loop raise, which fails the
  job; a directory whose name ends in \<^verbatim>\<open>.xml\<close> is opened as a file too, but
  \<^verbatim>\<open>xml_to_pdf\<close> catches the error, prints it and the loop goes on.
\<close>

theorem render_all_top_level_only:
  assumes "render_all lib d names w = (r, w')"
  shows "(\<forall>x q. q \<noteq> [] \<longrightarrow> lookup (d @ x # q) (fs w') = lookup (d @ x # q) (fs w)) \<and>
         (\<forall>x es. x \<in> set names \<and> endswith x ''.json'' \<and> lookup (d @ [x]) (fs w) = Some (Dir es) \<longrightarrow>
                 (\<exists>e. r = Inl e)) \<and>
         (\<forall>x es. endswith x ''.xml'' \<and> \<not> endswith x ''.json'' \<and> lookup (d @ [x]) (fs w) = Some (Dir es) \<longrightarrow>
                 render_all lib d [x] w =
                   (Inr (), w\<lparr>stdout := stdout w @ [XmlConvertFailed IsADirectoryError]\<rparr>))"
proof (intro conjI allI impI)
  fix x q assume "q \<noteq> ([]::path)"
  with assms show "lookup (d @ x # q) (fs w') = lookup (d @ x # q) (fs w)" by (rule render_all_deep)
next
  fix x es assume "x \<in> set names \<and> endswith x ''.json'' \<and> lookup (d @ [x]) (fs w) = Some (Dir es)"
  with render_all_json_dir[of x names d w es lib] assms show "\<exists>e. r = Inl e" by auto
next
  fix x es assume "endswith x ''.xml'' \<and> \<not> endswith x ''.json'' \<and> lookup (d @ [x]) (fs w) = Some (Dir es)"
  then show "render_all lib d [x] w = (Inr (), w\<lparr>stdout := stdout w @ [XmlConvertFailed IsADirectoryError]\<rparr>)"
    by (simp add: xml_to_pdf_dir)
qed

theorem render_all_top_level_only_witness:
  "render_all example_lib [''job_13''] [''s.json'', ''d.json''] dirs_world =
     (Inl IsADirectoryError,
      dirs_world\<lparr>fs := Dir [(''job_13'', Dir [(''s.json'', File (Text ''1'')),
                                 (''d.json'', Dir [(''inner.json'', File (Text ''2''))]),
                                 (''e.xml'', Dir []),
                                 (''s.pdf'', File (Pdf [Paragraph Title ''s.json'', Paragraph Monospace ''1'']))])]\<rparr>) \<and>
   lookup [''job_13'', ''d.json'', ''inner.json'']
     (Dir [(''job_13'', Dir [(''s.json'', File (Text ''1'')),
                                 (''d.json'', Dir [(''inner.json'', File (Text ''2''))]),
                                 (''e.xml'', Dir []),
                                 (''s.pdf'', File (Pdf [Paragraph Title ''s.json'', Paragraph Monospace ''1'']))])]) =
     lookup [''job_13'', ''d.json'', ''inner.json''] (fs dirs_world) \<and>
   lookup [''job_13'', ''d.json'', ''inner.pdf'']
     (Dir [(''job_13'', Dir [(''s.json'', File (Text ''1'')),
                                 (''d.json'', Dir [(''inner.json'', File (Text ''2''))]),
                                 (''e.xml'', Dir []),
                                 (''s.pdf'', File (Pdf [Paragraph Title ''s.json'', Paragraph Monospace ''1'']))])]) = None \<and>
   render_all example_lib [''job_13''] [''e.xml''] dirs_world =
     (Inr (), dirs_world\<lparr>stdout := stdout dirs_world @ [XmlConvertFailed IsADirectoryError]\<rparr>)"
proof -
  let ?f' = "Dir [(''job_13'', Dir [(''s.json'', File (Text ''1'')),
                                 (''d.json'', Dir [(''inner.json'', File (Text ''2''))]),
                                 (''e.xml'', Dir []),
                                 (''s.pdf'', File (Pdf [Paragraph Title ''s.json'', Paragraph Monospace ''1'']))])]"
  have ev: "render_all example_lib [''job_13''] [''s.json'', ''d.json''] dirs_world =
     (Inl IsADirectoryError, dirs_world\<lparr>fs := ?f'\<rparr>)"
    by code_simp
  note t = render_all_top_level_only[OF ev]
  have a: "lookup [''job_13'', ''d.json'', ''inner.json''] ?f' =
           lookup [''job_13'', ''d.json'', ''inner.json''] (fs dirs_world)"
    by code_simp
  have b: "lookup [''job_13'', ''d.json'', ''inner.pdf''] ?f' = None"
    by code_simp
  have x: "endswith ''e.xml'' ''.xml'' \<and> \<not> endswith ''e.xml'' ''.json'' \<and>
           lookup ([''job_13''] @ [''e.xml'']) (fs dirs_world) = Some (Dir [])"
    by code_simp
  with t have c: "render_all example_lib [''job_13''] [''e.xml''] dirs_world =
     (Inr (), dirs_world\<lparr>stdout := stdout dirs_world @ [XmlConvertFailed IsADirectoryError]\<rparr>)"
    by blast
  show ?thesis by (rule conjI[OF ev conjI[OF a conjI[OF b c]]])
qed

section \<open>Properties of \<^verbatim>\<open>process_job\<close> and \<^verbatim>\<open>main\<close>\<close>






section \<open>Running the driver twice\<close>

subsection \<open>Paths that an operation leaves alone\<close>

















subsection \<open>Frames\<close>










lemma temp_not_project: "''job_'' @ s \<noteq> ''project_'' @ t"
  by simp










subsection \<open>The file operations\<close>













subsection \<open>Extraction and rendering\<close>













subsection \<open>\<^verbatim>\<open>unzip_to_dir\<close>\<close>









subsection \<open>\<^verbatim>\<open>get_job_id\<close> and the file system\<close>






subsection \<open>One job\<close>












subsection \<open>One configuration, and all of them\<close>
























end
